theory Spec2Isabelle
  imports
    Main
    "HOL-Library.Char_ord"
    "HOL-Library.List_Lexorder"
    "HOL-Library.Product_Lexorder"
    "HOL-Library.Multiset"
begin

section \<open>Data model\<close>

text \<open>
  The program \<^verbatim>\<open>dev_anon.py\<close> builds two tables of tuples and resolves them with pandas.
  A row of \<^verbatim>\<open>plato\<close> is \<^verbatim>\<open>(company_code, order_number, order_line, sales_item_id)\<close>, a
  row of \<^verbatim>\<open>mag\<close> is \<^verbatim>\<open>(company_code, order_number, order_line, mg_product_name)\<close>.
  A pandas cell may hold a missing value (\<^verbatim>\<open>None\<close>/\<^verbatim>\<open>NaN\<close>), so every cell
  is an \<open>option\<close>. Strings are compared as Python compares them, character code by
  character code (the order of \<open>Char_ord\<close> on characters with the lexicographic order on lists), and
  tuples of sort keys lexicographically.
\<close>

type_synonym merge_key = "string option \<times> string option \<times> int option"

type_synonym plato_row = "string option \<times> string option \<times> int option \<times> string option"

type_synonym mag_row = "string option \<times> string option \<times> int option \<times> string option"

type_synonym joined_row =
  "string option \<times> string option \<times> int option \<times> string option \<times> string option"

type_synonym counts_row = "string \<times> string \<times> string \<times> nat"

type_synonym picked_row = "string \<times> string \<times> string"


fun mag_key :: "mag_row \<Rightarrow> merge_key" where
  "mag_key (cc, ordno, line, lab) = (cc, ordno, line)"

fun mag_product :: "mag_row \<Rightarrow> string option" where
  "mag_product (cc, ordno, line, lab) = lab"

section \<open>The pandas operations used by the resolver\<close>

text \<open>
  \<^verbatim>\<open>plato.merge(mag, on=["company_code","order_number","order_line"], how="left")\<close>:
  every left row, in the order of \<^verbatim>\<open>plato\<close>, once with each right row carrying an equal
  key, and once with a missing product when no right row does. pandas compares merge keys so
  that a missing value equals a missing value, which is what equality on \<open>option\<close> does.
\<close>

fun merge_row :: "mag_row list \<Rightarrow> plato_row \<Rightarrow> joined_row list" where
  "merge_row mag (cc, ordno, line, it) =
     (case filter (\<lambda>m. mag_key m = (cc, ordno, line)) mag of
        [] \<Rightarrow> [(cc, ordno, line, it, None)]
      | ms \<Rightarrow> map (\<lambda>m. (cc, ordno, line, it, mag_product m)) ms)"

definition merge_left :: "plato_row list \<Rightarrow> mag_row list \<Rightarrow> joined_row list" where
  "merge_left plato mag = concat (map (merge_row mag) plato)"

text \<open>\<^verbatim>\<open>.dropna(subset=["mg_product_name"])\<close>: rows whose product is missing are removed.\<close>

fun has_product :: "joined_row \<Rightarrow> bool" where
  "has_product (cc, ordno, line, it, lab) = (lab \<noteq> None)"

definition dropna_product :: "joined_row list \<Rightarrow> joined_row list" where
  "dropna_product rows = filter has_product rows"

text \<open>
  \<^verbatim>\<open>groupby(["company_code","sales_item_id","mg_product_name"], as_index=False).size()\<close>
  with the defaults \<^verbatim>\<open>sort=True\<close> and \<^verbatim>\<open>dropna=True\<close>: a row with a missing value in a group
  key belongs to no group; the groups come out in ascending order of the key; the size of a
  group is the number of its rows. The column is then renamed to \<^verbatim>\<open>cnt\<close>.
\<close>

fun group_key3 :: "joined_row \<Rightarrow> picked_row list" where
  "group_key3 (Some cc, ordno, line, Some it, Some lab) = [(cc, it, lab)]"
| "group_key3 _ = []"

definition group_keys3 :: "joined_row list \<Rightarrow> picked_row list" where
  "group_keys3 rows = concat (map group_key3 rows)"

fun with_size :: "picked_row list \<Rightarrow> picked_row \<Rightarrow> counts_row" where
  "with_size ks (cc, it, lab) = (cc, it, lab, count_list ks (cc, it, lab))"

definition groupby_size :: "joined_row list \<Rightarrow> counts_row list" where
  "groupby_size rows =
     (let ks = group_keys3 rows in map (with_size ks) (sort (remdups ks)))"

text \<open>
  \<^verbatim>\<open>sort_values(["company_code","sales_item_id","cnt"], ascending=[True,True,False])\<close>:
  a sort on several columns is a lexicographic sort that keeps rows with equal keys in their
  previous order.
\<close>

fun cnt_desc_key :: "counts_row \<Rightarrow> string \<times> string \<times> int" where
  "cnt_desc_key (cc, it, lab, cnt) = (cc, it, - int cnt)"

definition sort_values_cnt_desc :: "counts_row list \<Rightarrow> counts_row list" where
  "sort_values_cnt_desc rows = sort_key cnt_desc_key rows"

text \<open>
  \<^verbatim>\<open>groupby(["company_code","sales_item_id"], as_index=False).first()\<close> followed by the
  selection of the three columns: one row per group, groups in ascending order of the key,
  each with the first value of every column in the order of the frame (no cell is missing
  here, so the first value is the one of the group's first row).
\<close>

fun pair_key :: "counts_row \<Rightarrow> string \<times> string" where
  "pair_key (cc, it, lab, cnt) = (cc, it)"

fun triple_of :: "counts_row \<Rightarrow> picked_row" where
  "triple_of (cc, it, lab, cnt) = (cc, it, lab)"

fun first_of_group :: "counts_row list \<Rightarrow> string \<times> string \<Rightarrow> picked_row list" where
  "first_of_group rows k =
     (case find (\<lambda>r. pair_key r = k) rows of
        None \<Rightarrow> []
      | Some (cc, it, lab, cnt) \<Rightarrow> [(cc, it, lab)])"

definition groupby_first :: "counts_row list \<Rightarrow> picked_row list" where
  "groupby_first rows = concat (map (first_of_group rows) (sort (remdups (map pair_key rows))))"

text \<open>\<^verbatim>\<open>sort_values(["company_code","sales_item_id"]).reset_index(drop=True)\<close>.\<close>

fun out_key :: "picked_row \<Rightarrow> string \<times> string" where
  "out_key (cc, it, lab) = (cc, it)"

definition sort_values_pair :: "picked_row list \<Rightarrow> picked_row list" where
  "sort_values_pair rows = sort_key out_key rows"

section \<open>The resolver: the last four statements of \<^verbatim>\<open>mock_mapping_dataframe\<close>\<close>

text \<open>
  \<^verbatim>\<open>mock_mapping_dataframe\<close> first fills the tables \<^verbatim>\<open>plato\<close> and \<^verbatim>\<open>mag\<close> from the
  seeded random generator, then computes \<^verbatim>\<open>joined\<close>, \<^verbatim>\<open>counts\<close>, \<^verbatim>\<open>picked\<close> and the
  returned frame from them. The four statements are modelled here for arbitrary tables,
  each under the name of the variable it assigns; the returned frame is \<open>resolve_mapping\<close>.
\<close>

definition joined :: "plato_row list \<Rightarrow> mag_row list \<Rightarrow> joined_row list" where
  "joined plato mag = dropna_product (merge_left plato mag)"

definition counts :: "plato_row list \<Rightarrow> mag_row list \<Rightarrow> counts_row list" where
  "counts plato mag = groupby_size (joined plato mag)"

definition picked :: "plato_row list \<Rightarrow> mag_row list \<Rightarrow> picked_row list" where
  "picked plato mag = groupby_first (sort_values_cnt_desc (counts plato mag))"

definition resolve_mapping :: "plato_row list \<Rightarrow> mag_row list \<Rightarrow> picked_row list" where
  "resolve_mapping plato mag = sort_values_pair (picked plato mag)"

text \<open>
  The number of surviving joined occurrences of a label for a pair, counted directly on
  the joined table.
\<close>

definition occurrences :: "plato_row list \<Rightarrow> mag_row list \<Rightarrow> string \<Rightarrow> string \<Rightarrow> string \<Rightarrow> nat" where
  "occurrences plato mag cc it lab =
     length (filter (\<lambda>(c, ordno, line, i, p). c = Some cc \<and> i = Some it \<and> p = Some lab)
       (joined plato mag))"



section \<open>The live path and the program's entry point\<close>

text \<open>
  Exceptions are values. \<open>RuntimeError\<close> is the one the program raises itself;
  \<open>KeyError\<close> and \<open>TypeError\<close> are what Python raises on a missing column and on calling
  \<^verbatim>\<open>None\<close>; \<open>LibraryError\<close> stands for any exception that a library call lets through
  (authentication, the remote query, reading the entity file).
\<close>

datatype error = RuntimeError string | KeyError string | TypeError string | LibraryError string

text \<open>
  The two SQL texts are built by interpolation; what varies in them is the list of entity
  names and the list of company codes, which the constructors carry.
\<close>

datatype query = NamesQuery "string list" | MappingQuery "string list"

type_synonym 'cell frame = "(string \<times> 'cell list) list"

text \<open>
  What the module finds around it: the switch \<^verbatim>\<open>USE_MOCK\<close>, the two optional imports
  (\<open>None\<close> when the import failed, as the \<^verbatim>\<open>except\<close> branch sets them), the outcome of
  reading the entity file, the conversion \<^verbatim>\<open>astype(str)\<close> of a cell, and the two tables
  that the generation loops of \<^verbatim>\<open>mock_mapping_dataframe\<close> build.
\<close>

record ('cred, 'cell) env =
  USE_MOCK :: bool
  pydata_google_auth :: "(string list \<Rightarrow> error + 'cred) option"
  read_gbq :: "(query \<Rightarrow> 'cred option \<Rightarrow> error + 'cell frame) option"
  load_supported_entities :: "error + string list"
  astype_str :: "'cell \<Rightarrow> string"
  mock_plato :: "plato_row list"
  mock_mag :: "mag_row list"

text \<open>The effects of a run, in the order in which they happen.\<close>

datatype 'cell event =
    Mkdir string
  | ReadGbq query
  | ToExcel "picked_row list + 'cell frame"
  | Print string

definition scopes :: "string list" where
  "scopes = [''https://www.googleapis.com/auth/bigquery'',
             ''https://www.googleapis.com/auth/cloud-platform'']"

definition get_credentials :: "('cred, 'cell) env \<Rightarrow> error + 'cred option" where
  "get_credentials e =
     (if USE_MOCK e then Inr None
      else case pydata_google_auth e of
        None \<Rightarrow> Inl (RuntimeError
          ''pydata_google_auth not installed; run: pip install pydata-google-auth'')
      | Some get_user_credentials \<Rightarrow>
          (case get_user_credentials scopes of
             Inl err \<Rightarrow> Inl err
           | Inr c \<Rightarrow> Inr (Some c)))"

text \<open>\<^verbatim>\<open>sorted(set(df["CompanyCode"].astype(str)))\<close>.\<close>

definition sorted_set :: "string list \<Rightarrow> string list" where
  "sorted_set xs = sort (remdups xs)"

definition fetch_company_codes ::
  "('cred, 'cell) env \<Rightarrow> 'cred option \<Rightarrow> 'cell event list \<Rightarrow> 'cell event list \<times> (error + string list)" where
  "fetch_company_codes e credentials w =
     (case load_supported_entities e of
        Inl err \<Rightarrow> (w, Inl err)
      | Inr supported \<Rightarrow>
          (case read_gbq e of
             None \<Rightarrow> (w, Inl (RuntimeError ''pandas-gbq not installed; run: pip install pandas-gbq''))
           | Some rd \<Rightarrow>
               (let w1 = w @ [ReadGbq (NamesQuery supported)] in
                case rd (NamesQuery supported) credentials of
                  Inl err \<Rightarrow> (w1, Inl err)
                | Inr df \<Rightarrow>
                    (case map_of df ''CompanyCode'' of
                       None \<Rightarrow> (w1, Inl (KeyError ''CompanyCode''))
                     | Some col \<Rightarrow>
                         (let codes = sorted_set (map (astype_str e) col) in
                          if codes = []
                          then (w1, Inl (RuntimeError
                                 ''No CompanyCodes resolved from supported entities.''))
                          else (w1, Inr codes))))))"

definition run_mapping_query ::
  "('cred, 'cell) env \<Rightarrow> string list \<Rightarrow> 'cred option \<Rightarrow> 'cell event list
     \<Rightarrow> 'cell event list \<times> (error + 'cell frame)" where
  "run_mapping_query e codes credentials w =
     (case read_gbq e of
        None \<Rightarrow> (w, Inl (TypeError ''NoneType object is not callable''))
      | Some rd \<Rightarrow> (w @ [ReadGbq (MappingQuery codes)], rd (MappingQuery codes) credentials))"

text \<open>
  The generation loops draw from \<^verbatim>\<open>random\<close>; their result is the pair of tables of
  the environment, to which the resolver is applied.
\<close>

definition mock_mapping_dataframe :: "('cred, 'cell) env \<Rightarrow> picked_row list" where
  "mock_mapping_dataframe e = resolve_mapping (mock_plato e) (mock_mag e)"

text \<open>
  \<open>load_frame\<close> is the conditional of \<^verbatim>\<open>main\<close> that assigns \<^verbatim>\<open>df\<close>; \<open>main\<close> creates
  the export directory before it and writes the frame and prints after it. An exception
  ends the run where it is raised, with the effects that have happened so far.
\<close>

definition load_frame ::
  "('cred, 'cell) env \<Rightarrow> 'cell event list
     \<Rightarrow> 'cell event list \<times> (error + (picked_row list + 'cell frame))" where
  "load_frame e w =
     (if USE_MOCK e then (w, Inr (Inl (mock_mapping_dataframe e)))
      else case get_credentials e of
        Inl err \<Rightarrow> (w, Inl err)
      | Inr creds \<Rightarrow>
          (case fetch_company_codes e creds w of
             (w1, Inl err) \<Rightarrow> (w1, Inl err)
           | (w1, Inr codes) \<Rightarrow>
               (case run_mapping_query e codes creds w1 of
                  (w2, Inl err) \<Rightarrow> (w2, Inl err)
                | (w2, Inr df) \<Rightarrow> (w2, Inr (Inr df)))))"

definition main :: "('cred, 'cell) env \<Rightarrow> 'cell event list \<times> (error + unit)" where
  "main e =
     (case load_frame e [Mkdir ''exports''] of
        (w, Inl err) \<Rightarrow> (w, Inl err)
      | (w, Inr df) \<Rightarrow> (w @ [ToExcel df, Print ''Saved Excel'', Print ''shape''], Inr ()))"

fun is_to_excel :: "'cell event \<Rightarrow> bool" where
  "is_to_excel (ToExcel df) = True"
| "is_to_excel _ = False"

fun is_mapping_query :: "'cell event \<Rightarrow> bool" where
  "is_mapping_query (ReadGbq (MappingQuery codes)) = True"
| "is_mapping_query _ = False"

section \<open>Concrete inputs and environments\<close>

text \<open>
  Three environments on which the statements below are evaluated: mock mode without the
  authentication library; a live run whose company-code lookup returns no row; a live run
  whose lookup returns codes out of order and with a repetition.
\<close>

definition env_mock_no_auth :: "(unit, string) env" where
  "env_mock_no_auth = \<lparr> USE_MOCK = True, pydata_google_auth = None, read_gbq = None,
     load_supported_entities = Inr [''Acme''], astype_str = (\<lambda>s. s),
     mock_plato = [], mock_mag = [] \<rparr>"

definition env_live_no_codes :: "(unit, string) env" where
  "env_live_no_codes = \<lparr> USE_MOCK = False,
     pydata_google_auth = Some (\<lambda>sc. Inr ()),
     read_gbq = Some (\<lambda>q c. Inr [(''CompanyCode'', [])]),
     load_supported_entities = Inr [''Acme''], astype_str = (\<lambda>s. s),
     mock_plato = [], mock_mag = [] \<rparr>"

definition env_live_codes :: "(unit, string) env" where
  "env_live_codes = \<lparr> USE_MOCK = False,
     pydata_google_auth = Some (\<lambda>sc. Inr ()),
     read_gbq = Some (\<lambda>q c. Inr [(''CompanyCode'', [''C02'', ''C01'', ''C02''])]),
     load_supported_entities = Inr [''Acme''], astype_str = (\<lambda>s. s),
     mock_plato = [], mock_mag = [] \<rparr>"

text \<open>
  Two pairs of tables: three order lines of one item with labels voting two to one, and
  two order lines of one item whose labels tie one to one, the label met first in the input
  being the larger one in string order.
\<close>

definition vote_plato :: "plato_row list" where
  "vote_plato = [(Some ''C01'', Some ''O1'', Some 1, Some ''X''),
                 (Some ''C01'', Some ''O2'', Some 1, Some ''X''),
                 (Some ''C01'', Some ''O3'', Some 1, Some ''X'')]"

definition vote_mag :: "mag_row list" where
  "vote_mag = [(Some ''C01'', Some ''O1'', Some 1, Some ''Blinds''),
               (Some ''C01'', Some ''O2'', Some 1, Some ''Blinds''),
               (Some ''C01'', Some ''O3'', Some 1, Some ''Shades'')]"

definition tie_plato :: "plato_row list" where
  "tie_plato = [(Some ''C01'', Some ''O1'', Some 1, Some ''X''),
                (Some ''C01'', Some ''O2'', Some 1, Some ''X'')]"

definition tie_mag :: "mag_row list" where
  "tie_mag = [(Some ''C01'', Some ''O1'', Some 1, Some ''Shades''),
              (Some ''C01'', Some ''O2'', Some 1, Some ''Blinds'')]"



section \<open>Facts about the join and the aggregation\<close>

lemma count_group_keys3:
  "count_list (group_keys3 rows) (cc, it, lab) =
     length (filter (\<lambda>(c, ordno, line, i, p). c = Some cc \<and> i = Some it \<and> p = Some lab) rows)"
proof (induction rows)
  case Nil
  show ?case by (simp add: group_keys3_def)
next
  case (Cons r rows)
  obtain c ordno line i p where r: "r = (c, ordno, line, i, p)"
    by (cases r) auto
  have step: "group_keys3 (r # rows) = group_key3 r @ group_keys3 rows"
    by (simp add: group_keys3_def)
  show ?case
  proof (cases c)
    case None
    with Cons r step show ?thesis by simp
  next
    case (Some c')
    note c = this
    show ?thesis
    proof (cases i)
      case None
      with Cons r step c show ?thesis by simp
    next
      case (Some i')
      note i = this
      show ?thesis
      proof (cases p)
        case None
        with Cons r step c i show ?thesis by simp
      next
        case (Some p')
        with Cons r step c i show ?thesis by auto
      qed
    qed
  qed
qed


lemma occurrences_count:
  "occurrences plato mag cc it lab = count_list (group_keys3 (joined plato mag)) (cc, it, lab)"
  by (simp add: occurrences_def count_group_keys3)






lemma triple_of_with_size: "triple_of (with_size ks k) = k"
  by (cases k) simp

lemma map_triple_of_with_size: "map triple_of (map (with_size ks) xs) = xs"
  by (induction xs) (simp_all add: triple_of_with_size)

lemma groupby_size_triples:
  "map triple_of (groupby_size rows) = sort (remdups (group_keys3 rows))"
  unfolding groupby_size_def Let_def by (rule map_triple_of_with_size)

lemma with_size_eq:
  "with_size ks k = (cc, it, lab, n) \<longleftrightarrow> k = (cc, it, lab) \<and> n = count_list ks (cc, it, lab)"
proof (cases k)
  case (fields a b c)
  then show ?thesis by (simp only: with_size.simps prod.inject) blast
qed

lemma set_groupby_size:
  "(cc, it, lab, n) \<in> set (groupby_size rows) \<longleftrightarrow>
     (cc, it, lab) \<in> set (group_keys3 rows) \<and> n = count_list (group_keys3 rows) (cc, it, lab)"
proof -
  let ?ks = "group_keys3 rows"
  have img: "set (groupby_size rows) = with_size ?ks ` set ?ks"
    unfolding groupby_size_def Let_def by simp
  show ?thesis
  proof
    assume "(cc, it, lab, n) \<in> set (groupby_size rows)"
    then have "(cc, it, lab, n) \<in> with_size ?ks ` set ?ks" by (simp only: img)
    then obtain k where "k \<in> set ?ks" and "(cc, it, lab, n) = with_size ?ks k"
      by (rule imageE)
    then have "k \<in> set ?ks" and "with_size ?ks k = (cc, it, lab, n)" by simp_all
    then show "(cc, it, lab) \<in> set ?ks \<and> n = count_list ?ks (cc, it, lab)"
      by (simp only: with_size_eq)
  next
    assume a: "(cc, it, lab) \<in> set ?ks \<and> n = count_list ?ks (cc, it, lab)"
    then have eq: "with_size ?ks (cc, it, lab) = (cc, it, lab, n)"
      by (simp only: with_size_eq)
    from a have "with_size ?ks (cc, it, lab) \<in> with_size ?ks ` set ?ks"
      by (intro imageI) (rule conjunct1)
    then show "(cc, it, lab, n) \<in> set (groupby_size rows)"
      by (simp only: img eq)
  qed
qed

lemma find_sorted_least:
  assumes "sorted (map f xs)" and "find P xs = Some x" and "y \<in> set xs" and "P y"
  shows "f x \<le> f y"
  using assms
proof (induction xs)
  case Nil
  then show ?case by simp
next
  case (Cons a xs)
  show ?case
  proof (cases "P a")
    case True
    with Cons.prems have "x = a" by simp
    with Cons.prems show ?thesis by auto
  next
    case False
    with Cons.prems have "find P xs = Some x" "y \<in> set xs" "sorted (map f xs)"
      by auto
    with Cons.IH Cons.prems(4) show ?thesis by simp
  qed
qed

lemma find_filter_head:
  assumes "find P xs = Some x" and "\<And>y. Q y \<Longrightarrow> P y" and "Q x"
  shows "\<exists>zs. filter Q xs = x # zs"
  using assms(1)
proof (induction xs)
  case Nil
  then show ?case by simp
next
  case (Cons a xs)
  show ?case
  proof (cases "P a")
    case True
    with Cons.prems have "x = a" by simp
    with assms(3) show ?thesis by simp
  next
    case False
    with assms(2) have "\<not> Q a" by auto
    moreover from False Cons.prems have "find P xs = Some x" by simp
    ultimately show ?thesis using Cons.IH by simp
  qed
qed

lemma find_Some_set: "find P xs = Some x \<Longrightarrow> x \<in> set xs \<and> P x"
  by (auto simp: find_Some_iff)


lemma set_groupby_first:
  "(cc, it, lab) \<in> set (groupby_first rows) \<longleftrightarrow>
     (\<exists>n. find (\<lambda>r. pair_key r = (cc, it)) rows = Some (cc, it, lab, n))"
proof
  assume "(cc, it, lab) \<in> set (groupby_first rows)"
  then obtain k where k: "(cc, it, lab) \<in> set (first_of_group rows k)"
    unfolding groupby_first_def set_concat set_map by blast
  then obtain r where r: "find (\<lambda>r. pair_key r = k) rows = Some r"
    by (cases "find (\<lambda>r. pair_key r = k) rows") auto
  obtain c i l n where rr: "r = (c, i, l, n)" by (cases r) auto
  from k r rr have eq: "(c, i, l) = (cc, it, lab)" by simp
  from find_Some_set [OF r] rr have "k = (c, i)" by simp
  with r rr eq show "\<exists>n. find (\<lambda>r. pair_key r = (cc, it)) rows = Some (cc, it, lab, n)"
    by auto
next
  assume "\<exists>n. find (\<lambda>r. pair_key r = (cc, it)) rows = Some (cc, it, lab, n)"
  then obtain n where f: "find (\<lambda>r. pair_key r = (cc, it)) rows = Some (cc, it, lab, n)"
    by blast
  have mem: "(cc, it) \<in> set (sort (remdups (map pair_key rows)))"
  proof -
    from find_Some_set [OF f] have "(cc, it, lab, n) \<in> set rows" by simp
    then have "pair_key (cc, it, lab, n) \<in> pair_key ` set rows" by (rule imageI)
    then show ?thesis by simp
  qed
  from f have "(cc, it, lab) \<in> set (first_of_group rows (cc, it))" by simp
  with mem show "(cc, it, lab) \<in> set (groupby_first rows)"
    unfolding groupby_first_def set_concat set_map by blast
qed


lemma groupby_first_keys:
  "map out_key (groupby_first rows) = sort (remdups (map pair_key rows))"
proof -
  have one: "k \<in> pair_key ` set rows \<Longrightarrow> map out_key (first_of_group rows k) = [k]" for k
  proof -
    assume "k \<in> pair_key ` set rows"
    then obtain x where "x \<in> set rows" and "pair_key x = k" by blast
    then have "find (\<lambda>r. pair_key r = k) rows \<noteq> None"
      unfolding find_None_iff by blast
    then obtain r where r: "find (\<lambda>r. pair_key r = k) rows = Some r" by auto
    obtain c i l n where rr: "r = (c, i, l, n)" by (cases r) auto
    from find_Some_set [OF r] rr have "k = (c, i)" by simp
    with r rr show ?thesis by simp
  qed
  have gen: "set ks \<subseteq> pair_key ` set rows \<Longrightarrow>
      map out_key (concat (map (first_of_group rows) ks)) = ks" for ks
  proof (induction ks)
    case Nil
    show ?case by simp
  next
    case (Cons k ks)
    then have "map out_key (first_of_group rows k) = [k]" by (intro one) simp
    with Cons show ?case by simp
  qed
  show ?thesis
    unfolding groupby_first_def by (rule gen) simp
qed

text \<open>
  The row that \<^verbatim>\<open>first()\<close> takes for a pair is the first row of the pair in the table
  sorted by descending count. Its count is the largest of the pair, and among the rows with
  that count it is the one that came first in \<^verbatim>\<open>counts\<close>, which is ordered by label.
\<close>

lemma counts_member:
  "(cc, it, lab, n) \<in> set (sort_values_cnt_desc (counts plato mag)) \<longleftrightarrow>
     0 < occurrences plato mag cc it lab \<and> n = occurrences plato mag cc it lab"
proof -
  have "0 < count_list ks k \<longleftrightarrow> k \<in> set ks" for ks :: "picked_row list" and k
  proof -
    have "0 < count_list ks k \<longleftrightarrow> count_list ks k \<noteq> 0" by auto
    also have "\<dots> \<longleftrightarrow> k \<in> set ks" by (simp add: count_list_0_iff)
    finally show ?thesis .
  qed
  then show ?thesis
    by (simp only: sort_values_cnt_desc_def set_sort counts_def set_groupby_size
        occurrences_count)
qed

lemma counts_sorted_triples:
  "sorted (map triple_of (counts plato mag))"
  by (simp add: counts_def groupby_size_triples)

lemma first_row_best:
  assumes f: "find (\<lambda>r. pair_key r = (cc, it)) (sort_values_cnt_desc (counts plato mag))
                = Some (cc, it, lab, n)"
  shows "n = occurrences plato mag cc it lab"
    and "0 < occurrences plato mag cc it lab"
    and "occurrences plato mag cc it lab' \<le> occurrences plato mag cc it lab"
    and "occurrences plato mag cc it lab' = occurrences plato mag cc it lab \<Longrightarrow> lab \<le> lab'"
proof -
  let ?S = "sort_values_cnt_desc (counts plato mag)"
  let ?C = "counts plato mag"
  let ?P = "\<lambda>r. pair_key r = (cc, it)"
  let ?occ = "occurrences plato mag cc it"
  from find_Some_set [OF f] have rin: "(cc, it, lab, n) \<in> set ?S" by simp
  then show n: "n = ?occ lab" and pos: "0 < ?occ lab"
    by (simp_all only: counts_member)
  have srt: "sorted (map cnt_desc_key ?S)"
    by (simp add: sort_values_cnt_desc_def)
  show le: "?occ lab' \<le> ?occ lab"
  proof (cases "0 < ?occ lab'")
    case False
    then show ?thesis by simp
  next
    case True
    then have rin': "(cc, it, lab', ?occ lab') \<in> set ?S"
      by (simp only: counts_member)
    have "cnt_desc_key (cc, it, lab, n) \<le> cnt_desc_key (cc, it, lab', ?occ lab')"
      by (rule find_sorted_least [OF srt f rin']) simp
    with n show ?thesis by simp
  qed
  show "lab \<le> lab'" if eq: "?occ lab' = ?occ lab"
  proof -
    let ?Q = "\<lambda>y. cnt_desc_key y = (cc, it, - int n)"
    have QP: "?P y" if "?Q y" for y
      using that by (cases y) simp
    from find_filter_head [of ?P ?S "(cc, it, lab, n)" ?Q, OF f QP]
    obtain zs where zs: "filter ?Q ?S = (cc, it, lab, n) # zs" by auto
    have stable: "filter ?Q ?S = filter ?Q ?C"
      unfolding sort_values_cnt_desc_def by (rule sort_key_stable)
    from eq pos have rin': "(cc, it, lab', n) \<in> set ?S"
      using n by (simp only: counts_member)
    then have "(cc, it, lab', n) \<in> set (filter ?Q ?S)" by simp
    with zs have mem: "(cc, it, lab', n) = (cc, it, lab, n) \<or> (cc, it, lab', n) \<in> set zs"
      by simp
    have "sorted (map triple_of (filter ?Q ?C))"
      by (rule sorted_filter [OF counts_sorted_triples])
    with stable zs have "sorted (map triple_of ((cc, it, lab, n) # zs))" by simp
    then have "\<forall>z \<in> set zs. (cc, it, lab) \<le> triple_of z" by simp
    with mem have "(cc, it, lab) \<le> (cc, it, lab') \<or> lab' = lab" by force
    then show ?thesis by auto
  qed
qed

lemma resolve_mapping_picked: "resolve_mapping plato mag = picked plato mag"
proof -
  have "sorted (map out_key (picked plato mag))"
    by (simp add: picked_def groupby_first_keys)
  then show ?thesis
    unfolding resolve_mapping_def sort_values_pair_def by (rule sort_key_id_if_sorted)
qed

lemma resolve_mapping_member:
  "(cc, it, lab) \<in> set (resolve_mapping plato mag) \<longleftrightarrow>
     (\<exists>n. find (\<lambda>r. pair_key r = (cc, it)) (sort_values_cnt_desc (counts plato mag))
            = Some (cc, it, lab, n))"
  by (simp only: resolve_mapping_picked picked_def set_groupby_first)



text \<open>
  The output depends on the joined table only through the multiset of its group keys, and
  that multiset depends on the two tables only through their multisets of rows.
\<close>

lemma groupby_size_cong:
  assumes "mset (group_keys3 rows) = mset (group_keys3 rows')"
  shows "groupby_size rows = groupby_size rows'"
proof -
  let ?ks = "group_keys3 rows" and ?ks' = "group_keys3 rows'"
  from assms have "set ?ks = set ?ks'" by (rule mset_eq_setD)
  then have "sorted_list_of_set (set ?ks) = sorted_list_of_set (set ?ks')" by simp
  then have keys: "sort (remdups ?ks) = sort (remdups ?ks')"
    by (simp only: sorted_list_of_set_sort_remdups)
  have "count_list ?ks k = count_list ?ks' k" for k
  proof -
    have "count_list ?ks k = count (mset ?ks) k"
      by (simp add: count_mset count_list_eq_length_filter eq_commute)
    also have "\<dots> = count (mset ?ks') k" by (simp only: assms)
    also have "\<dots> = count_list ?ks' k"
      by (simp add: count_mset count_list_eq_length_filter eq_commute)
    finally show ?thesis .
  qed
  then have "with_size ?ks k = with_size ?ks' k" for k
    by (cases k) simp
  then have "with_size ?ks = with_size ?ks'" by (rule ext)
  with keys show ?thesis by (simp add: groupby_size_def Let_def)
qed

lemma resolve_mapping_cong:
  assumes "mset (group_keys3 (joined plato mag)) = mset (group_keys3 (joined plato' mag'))"
  shows "resolve_mapping plato mag = resolve_mapping plato' mag'"
proof -
  from assms have "counts plato mag = counts plato' mag'"
    unfolding counts_def by (rule groupby_size_cong)
  then show ?thesis by (simp add: resolve_mapping_def picked_def)
qed








lemma mset_concat_map_cong:
  assumes "mset xs = mset ys"
  shows "mset (concat (map f xs)) = mset (concat (map f ys))"
proof -
  have "mset (concat (map f zs)) = sum_mset (image_mset (\<lambda>z. mset (f z)) (mset zs))" for zs
    by (induction zs) simp_all
  with assms show ?thesis by simp
qed

lemma mset_merge_row_cong:
  assumes "mset mag = mset mag'"
  shows "mset (merge_row mag r) = mset (merge_row mag' r)"
proof -
  obtain cc ordno line it where r: "r = (cc, ordno, line, it)" by (cases r) auto
  let ?P = "\<lambda>m. mag_key m = (cc, ordno, line)"
  let ?g = "\<lambda>m. (cc, ordno, line, it, mag_product m)"
  have F: "mset (filter ?P mag) = mset (filter ?P mag')"
    using assms by simp
  have shape: "mset (merge_row ms r) =
      (if filter ?P ms = [] then {#(cc, ordno, line, it, None)#}
       else image_mset ?g (mset (filter ?P ms)))" for ms
    unfolding r by (cases "filter ?P ms") simp_all
  have "filter ?P mag = [] \<longleftrightarrow> filter ?P mag' = []"
    using F by (metis mset_zero_iff)
  with F show ?thesis by (simp only: shape)
qed

lemma mset_merge_left_cong:
  assumes "mset plato = mset plato'" and "mset mag = mset mag'"
  shows "mset (merge_left plato mag) = mset (merge_left plato' mag')"
proof -
  have "mset (concat (map (merge_row mag) plato)) = mset (concat (map (merge_row mag) plato'))"
    using assms(1) by (rule mset_concat_map_cong)
  also have "\<dots> = mset (concat (map (merge_row mag') plato'))"
    by (simp add: mset_concat mset_merge_row_cong [OF assms(2)] o_def)
  finally show ?thesis by (simp only: merge_left_def)
qed

lemma mset_group_keys3_joined_cong:
  assumes "mset plato = mset plato'" and "mset mag = mset mag'"
  shows "mset (group_keys3 (joined plato mag)) = mset (group_keys3 (joined plato' mag'))"
proof -
  have "mset (joined plato mag) = mset (joined plato' mag')"
    using mset_merge_left_cong [OF assms] by (simp add: joined_def dropna_product_def)
  then show ?thesis
    unfolding group_keys3_def by (rule mset_concat_map_cong)
qed

section \<open>Ordering of the output\<close>

text \<open>
  Claim C5. The rows that the resolver returns are in ascending order of the pair
  (company code, item identifier): the last statement sorts by these two columns.
\<close>

theorem output_sorted:
  "sorted (map out_key (resolve_mapping plato mag))"
  by (simp add: resolve_mapping_def sort_values_pair_def)

theorem output_sorted_witness:
  "sorted (map out_key (resolve_mapping
     [(Some ''C02'', Some ''O1'', Some 1, Some ''Y''), (Some ''C01'', Some ''O2'', Some 1, Some ''X'')]
     [(Some ''C02'', Some ''O1'', Some 1, Some ''Shades''), (Some ''C01'', Some ''O2'', Some 1, Some ''Blinds'')]))"
  by (rule output_sorted)

section \<open>Inputs without a successful join\<close>



section \<open>The selected label\<close>

text \<open>
  Claim C1. For every pair in the output, the label selected for the pair occurs among
  the surviving joined rows of the pair at least as often as any other label.
\<close>

theorem majority_label:
  assumes "(cc, it, lab) \<in> set (resolve_mapping plato mag)"
  shows "occurrences plato mag cc it lab' \<le> occurrences plato mag cc it lab"
proof -
  from assms obtain n where
    "find (\<lambda>r. pair_key r = (cc, it)) (sort_values_cnt_desc (counts plato mag))
       = Some (cc, it, lab, n)"
    unfolding resolve_mapping_member by blast
  then show ?thesis by (rule first_row_best(3))
qed

theorem majority_label_witness:
  "(''C01'', ''X'', ''Blinds'') \<in> set (resolve_mapping vote_plato vote_mag)
   \<and> occurrences vote_plato vote_mag ''C01'' ''X'' ''Blinds'' = 2
   \<and> occurrences vote_plato vote_mag ''C01'' ''X'' ''Shades'' \<le>
       occurrences vote_plato vote_mag ''C01'' ''X'' ''Blinds''"
proof -
  have mem: "(''C01'', ''X'', ''Blinds'') \<in> set (resolve_mapping vote_plato vote_mag)"
    by code_simp
  have two: "occurrences vote_plato vote_mag ''C01'' ''X'' ''Blinds'' = 2"
    by code_simp
  from majority_label [OF mem, of "''Shades''"] mem two show ?thesis by simp
qed




section \<open>The pairs of the output\<close>



section \<open>Order lines with missing values\<close>




section \<open>Determinism\<close>

text \<open>
  Claim C4. The output is a function of the two tables, and of their rows only: two
  invocations on tables with the same rows return the same rows in the same order, whatever
  the order of the rows in the tables, hence in particular for the same tables in the
  same order.
\<close>

theorem resolve_mapping_deterministic:
  assumes "mset plato = mset plato'" and "mset mag = mset mag'"
  shows "resolve_mapping plato mag = resolve_mapping plato' mag'"
  by (rule resolve_mapping_cong) (rule mset_group_keys3_joined_cong [OF assms])

theorem resolve_mapping_deterministic_witness:
  "resolve_mapping tie_plato tie_mag = resolve_mapping tie_plato tie_mag
   \<and> resolve_mapping tie_plato tie_mag = resolve_mapping (rev tie_plato) (rev tie_mag)"
proof -
  have p: "mset tie_plato = mset (rev tie_plato)" and m: "mset tie_mag = mset (rev tie_mag)"
    by simp_all
  from resolve_mapping_deterministic [OF refl refl, of tie_plato tie_mag]
    resolve_mapping_deterministic [OF p m]
  show ?thesis by simp
qed

section \<open>Credentials\<close>

text \<open>
  Claim C9. In mock mode \<^verbatim>\<open>get_credentials\<close> returns \<^verbatim>\<open>None\<close> and raises nothing,
  whether or not the authentication library was imported; the error about the missing
  library is raised only outside mock mode, and it is raised there when the library is absent.
\<close>

theorem get_credentials_mock:
  "(USE_MOCK e \<longrightarrow> get_credentials e = Inr None)
   \<and> (get_credentials e = Inl (RuntimeError
         ''pydata_google_auth not installed; run: pip install pydata-google-auth'')
        \<longrightarrow> \<not> USE_MOCK e)
   \<and> (\<not> USE_MOCK e \<and> pydata_google_auth e = None \<longrightarrow> get_credentials e = Inl (RuntimeError
         ''pydata_google_auth not installed; run: pip install pydata-google-auth''))"
  by (simp add: get_credentials_def)

theorem get_credentials_mock_witness:
  "USE_MOCK env_mock_no_auth \<and> pydata_google_auth env_mock_no_auth = None
   \<and> get_credentials env_mock_no_auth = Inr None"
  using get_credentials_mock [of env_mock_no_auth]
  by (simp add: env_mock_no_auth_def)

section \<open>The company-code lookup\<close>

lemma sorted_set_props: "distinct (sorted_set xs) \<and> sorted (sorted_set xs) \<and> set (sorted_set xs) = set xs"
  by (simp add: sorted_set_def)

text \<open>
  Claim C10. Whenever \<^verbatim>\<open>fetch_company_codes\<close> returns a list rather than raising, the
  list is not empty, has no repetition and is in ascending order.
\<close>

theorem fetch_company_codes_result:
  assumes "fetch_company_codes e credentials w = (w', Inr codes)"
  shows "codes \<noteq> [] \<and> distinct codes \<and> sorted codes"
proof -
  from assms obtain xs where "codes = sorted_set xs" and "sorted_set xs \<noteq> []"
    by (auto simp: fetch_company_codes_def Let_def
        split: sum.splits option.splits if_splits)
  then show ?thesis by (simp add: sorted_set_props)
qed

theorem fetch_company_codes_result_witness:
  "fetch_company_codes env_live_codes (Some ()) [] =
     ([ReadGbq (NamesQuery [''Acme''])], Inr [''C01'', ''C02''])
   \<and> [''C01'', ''C02''] \<noteq> [] \<and> distinct [''C01'', ''C02''] \<and> sorted [''C01'', ''C02'']"
proof -
  have run: "fetch_company_codes env_live_codes (Some ()) [] =
     ([ReadGbq (NamesQuery [''Acme''])], Inr [''C01'', ''C02''])"
    by (simp add: fetch_company_codes_def env_live_codes_def sorted_set_def)
  from fetch_company_codes_result [OF run] run show ?thesis by simp
qed

section \<open>Fatal conditions of a live run\<close>

lemma fetch_trace:
  "fetch_company_codes e c w = (w', r) \<Longrightarrow>
     w' = w \<or> (\<exists>supported. w' = w @ [ReadGbq (NamesQuery supported)])"
  by (auto simp: fetch_company_codes_def Let_def split: sum.splits option.splits if_splits)

lemma run_mapping_trace:
  "run_mapping_query e codes c w = (w', r) \<Longrightarrow>
     w' = w \<or> w' = w @ [ReadGbq (MappingQuery codes)]"
  by (auto simp: run_mapping_query_def split: option.splits)

lemma load_frame_no_excel:
  assumes "load_frame e w = (w', r)" and "list_all (\<lambda>ev. \<not> is_to_excel ev) w"
  shows "list_all (\<lambda>ev. \<not> is_to_excel ev) w'"
proof (cases "USE_MOCK e")
  case True
  with assms show ?thesis by (simp add: load_frame_def)
next
  case False
  show ?thesis
  proof (cases "get_credentials e")
    case (Inl err)
    with False assms show ?thesis by (simp add: load_frame_def)
  next
    case (Inr creds)
    obtain w1 r1 where f: "fetch_company_codes e creds w = (w1, r1)"
      by (cases "fetch_company_codes e creds w") auto
    from fetch_trace [OF f] assms(2) have w1: "list_all (\<lambda>ev. \<not> is_to_excel ev) w1"
      by auto
    show ?thesis
    proof (cases r1)
      case (Inl err)
      with False Inr f assms(1) w1 show ?thesis by (simp add: load_frame_def)
    next
      case (Inr codes)
      note r1 = this
      obtain w2 r2 where q: "run_mapping_query e codes creds w1 = (w2, r2)"
        by (cases "run_mapping_query e codes creds w1") auto
      from run_mapping_trace [OF q] w1 have w2: "list_all (\<lambda>ev. \<not> is_to_excel ev) w2"
        by auto
      from False \<open>get_credentials e = Inr creds\<close> f r1 q assms(1) have "w' = w2"
        by (cases r2) (simp_all add: load_frame_def)
      with w2 show ?thesis by simp
    qed
  qed
qed

lemma main_error_no_excel:
  assumes "main e = (w, Inl err)"
  shows "list_all (\<lambda>ev. \<not> is_to_excel ev) w"
proof -
  obtain w1 r1 where l: "load_frame e [Mkdir ''exports''] = (w1, r1)"
    by (cases "load_frame e [Mkdir ''exports'']") auto
  have w1: "list_all (\<lambda>ev. \<not> is_to_excel ev) w1"
    by (rule load_frame_no_excel [OF l]) simp
  from assms l have "w = w1"
    by (cases r1) (simp_all add: main_def)
  with w1 show ?thesis by simp
qed

text \<open>
  Claim C8. In a live run whose company-code lookup yields no code, \<^verbatim>\<open>main\<close> ends with
  the error of \<^verbatim>\<open>fetch_company_codes\<close>; its effects are the creation of the export
  directory and the lookup query only, so neither the mapping query nor the export has been
  started. No run that ends with an error has written the export.
\<close>

theorem main_empty_codes_fatal:
  "(\<not> USE_MOCK e \<and> get_credentials e = Inr creds \<and> load_supported_entities e = Inr supported
      \<and> read_gbq e = Some rd \<and> rd (NamesQuery supported) creds = Inr df
      \<and> map_of df ''CompanyCode'' = Some []
     \<longrightarrow> main e = ([Mkdir ''exports'', ReadGbq (NamesQuery supported)],
            Inl (RuntimeError ''No CompanyCodes resolved from supported entities.'')))
   \<and> (main e = (w, Inl err) \<longrightarrow> list_all (\<lambda>ev. \<not> is_to_excel ev) w)"
proof (intro conjI impI)
  assume h: "\<not> USE_MOCK e \<and> get_credentials e = Inr creds \<and> load_supported_entities e = Inr supported
      \<and> read_gbq e = Some rd \<and> rd (NamesQuery supported) creds = Inr df
      \<and> map_of df ''CompanyCode'' = Some []"
  then have "fetch_company_codes e creds [Mkdir ''exports''] =
      ([Mkdir ''exports'', ReadGbq (NamesQuery supported)],
       Inl (RuntimeError ''No CompanyCodes resolved from supported entities.''))"
    by (simp add: fetch_company_codes_def sorted_set_def)
  with h show "main e = ([Mkdir ''exports'', ReadGbq (NamesQuery supported)],
            Inl (RuntimeError ''No CompanyCodes resolved from supported entities.''))"
    by (simp add: main_def load_frame_def)
next
  assume "main e = (w, Inl err)"
  then show "list_all (\<lambda>ev. \<not> is_to_excel ev) w" by (rule main_error_no_excel)
qed

theorem main_empty_codes_fatal_witness:
  "main env_live_no_codes = ([Mkdir ''exports'', ReadGbq (NamesQuery [''Acme''])],
      Inl (RuntimeError ''No CompanyCodes resolved from supported entities.''))
   \<and> list_all (\<lambda>ev. \<not> is_to_excel ev) [Mkdir ''exports'', ReadGbq (NamesQuery [''Acme'']) :: string event]
   \<and> list_all (\<lambda>ev. \<not> is_mapping_query ev) [Mkdir ''exports'', ReadGbq (NamesQuery [''Acme'']) :: string event]"
proof -
  have c: "get_credentials env_live_no_codes = Inr (Some ())"
    by (simp add: get_credentials_def env_live_no_codes_def)
  have m: "main env_live_no_codes = ([Mkdir ''exports'', ReadGbq (NamesQuery [''Acme''])],
      Inl (RuntimeError ''No CompanyCodes resolved from supported entities.''))"
    using main_empty_codes_fatal [of env_live_no_codes "Some ()" "[''Acme'']"
        "\<lambda>q c. Inr [(''CompanyCode'', [])]" "[(''CompanyCode'', [])]"] c
    by (simp add: env_live_no_codes_def)
  then show ?thesis by simp
qed

end
